theory Spec2Isabelle
  imports Main "HOL-Library.Word"
begin

unbundle bit_operations_syntax

section \<open>Library functions the recover module calls\<close>

type_synonym byte = "8 word"

subsection \<open>Errors\<close>

text \<open>
  Every error value the module returns: \<open>authboss.ErrUserNotFound\<close>,
  \<open>authboss.ClientDataErr{Name}\<close>, an attribute that is missing or has the wrong type,
  \<open>base64.CorruptInputError\<close>, the module's own \<open>errRecoveryTokenExpired\<close>,
  \<open>authboss.ErrAndRedirect{Err, Location, FlashSuccess, FlashError}\<close>, the two errors
  of \<open>io.ReadFull\<close> (\<open>io.EOF\<close> and \<open>io.ErrUnexpectedEOF\<close>), and an error reported
  by a collaborator (random source, bcrypt, templates, store, callbacks).
\<close>

datatype error =
    ErrUserNotFound
  | ClientDataErr string
  | AttributeErr string
  | CorruptInputError
  | errRecoveryTokenExpired
  | ErrAndRedirect error string string string
  | EOF
  | ErrUnexpectedEOF
  | ExternalErr string

subsection \<open>crypto/md5\<close>

text \<open>
  \<open>md5.Sum\<close> is the MD5 digest of RFC 1321: the message is padded with \<open>0x80\<close>, zero
  bytes up to 56 modulo 64 and the bit length as 64 bits little endian; every 64-byte block
  runs 64 steps over four 32-bit words; the digest is the four words, little endian. Its
  result type is \<open>[16]byte\<close>.
\<close>

definition md5_shifts :: "nat list" where
  "md5_shifts =
    [7, 12, 17, 22, 7, 12, 17, 22, 7, 12, 17, 22, 7, 12, 17, 22,
     5, 9, 14, 20, 5, 9, 14, 20, 5, 9, 14, 20, 5, 9, 14, 20,
     4, 11, 16, 23, 4, 11, 16, 23, 4, 11, 16, 23, 4, 11, 16, 23,
     6, 10, 15, 21, 6, 10, 15, 21, 6, 10, 15, 21, 6, 10, 15, 21]"

definition md5_table :: "32 word list" where
  "md5_table =
    [0xd76aa478, 0xe8c7b756, 0x242070db, 0xc1bdceee, 0xf57c0faf, 0x4787c62a, 0xa8304613, 0xfd469501,
     0x698098d8, 0x8b44f7af, 0xffff5bb1, 0x895cd7be, 0x6b901122, 0xfd987193, 0xa679438e, 0x49b40821,
     0xf61e2562, 0xc040b340, 0x265e5a51, 0xe9b6c7aa, 0xd62f105d, 0x02441453, 0xd8a1e681, 0xe7d3fbc8,
     0x21e1cde6, 0xc33707d6, 0xf4d50d87, 0x455a14ed, 0xa9e3e905, 0xfcefa3f8, 0x676f02d9, 0x8d2a4c8a,
     0xfffa3942, 0x8771f681, 0x6d9d6122, 0xfde5380c, 0xa4beea44, 0x4bdecfa9, 0xf6bb4b60, 0xbebfbc70,
     0x289b7ec6, 0xeaa127fa, 0xd4ef3085, 0x04881d05, 0xd9d4d039, 0xe6db99e5, 0x1fa27cf8, 0xc4ac5665,
     0xf4292244, 0x432aff97, 0xab9423a7, 0xfc93a039, 0x655b59c3, 0x8f0ccc92, 0xffeff47d, 0x85845dd1,
     0x6fa87e4f, 0xfe2ce6e0, 0xa3014314, 0x4e0811a1, 0xf7537e82, 0xbd3af235, 0x2ad7d2bb, 0xeb86d391]"

type_synonym md5_state = "32 word \<times> 32 word \<times> 32 word \<times> 32 word"

definition le_word32 :: "byte list \<Rightarrow> 32 word" where
  "le_word32 bs = foldr (\<lambda>b w. ucast b OR push_bit 8 w) (take 4 bs) 0"

definition le_bytes :: "nat \<Rightarrow> 'a::len word \<Rightarrow> byte list" where
  "le_bytes n w = map (\<lambda>i. ucast (drop_bit (8 * i) w)) [0..<n]"

fun chunks :: "nat \<Rightarrow> 'a list \<Rightarrow> 'a list list" where
  "chunks n [] = []"
| "chunks n (x # xs) = take (Suc (n - 1)) (x # xs) # chunks n (drop (n - 1) xs)"

definition md5_step :: "32 word list \<Rightarrow> nat \<Rightarrow> md5_state \<Rightarrow> md5_state" where
  "md5_step M i s =
    (case s of (a, b, c, d) \<Rightarrow>
      let (f, g) =
            (if i < 16 then ((b AND c) OR (NOT b AND d), i)
             else if i < 32 then ((d AND b) OR (NOT d AND c), (5 * i + 1) mod 16)
             else if i < 48 then (b XOR c XOR d, (3 * i + 5) mod 16)
             else (c XOR (b OR NOT d), (7 * i) mod 16));
          t = f + a + md5_table ! i + M ! g
      in (d, b + word_rotl (md5_shifts ! i) t, b, c))"

definition md5_block :: "md5_state \<Rightarrow> byte list \<Rightarrow> md5_state" where
  "md5_block s p =
    (case s of (a0, b0, c0, d0) \<Rightarrow>
      case fold (md5_step (map le_word32 (chunks 4 p))) [0..<64] s of
        (a, b, c, d) \<Rightarrow> (a0 + a, b0 + b, c0 + c, d0 + d))"

definition md5_pad :: "byte list \<Rightarrow> byte list" where
  "md5_pad msg =
     msg @ [0x80] @ replicate ((119 - length msg mod 64) mod 64) 0
         @ le_bytes 8 (push_bit 3 (of_nat (length msg) :: 64 word))"

definition md5_init :: md5_state where
  "md5_init = (0x67452301, 0xefcdab89, 0x98badcfe, 0x10325476)"

definition md5_Sum :: "byte list \<Rightarrow> byte list" where
  "md5_Sum msg =
    (case foldl md5_block md5_init (chunks 64 (md5_pad msg)) of
       (a, b, c, d) \<Rightarrow> concat (map (le_bytes 4) [a, b, c, d]))"

subsection \<open>encoding/base64\<close>

text \<open>
  \<open>base64.StdEncoding\<close> and \<open>base64.URLEncoding\<close> differ in their last two characters;
  both pad with \<open>=\<close>. \<open>EncodeToString\<close> turns three bytes into four characters;
  \<open>DecodeString\<close> drops carriage returns and line feeds, reads quanta of four characters
  and accepts padding only in the last quantum. The byte offset that Go's
  \<open>CorruptInputError\<close> carries is left out.
\<close>

definition encodeStd :: string where
  "encodeStd = ''ABCDEFGHIJKLMNOPQRSTUVWXYZabcdefghijklmnopqrstuvwxyz0123456789+/''"

definition encodeURL :: string where
  "encodeURL = ''ABCDEFGHIJKLMNOPQRSTUVWXYZabcdefghijklmnopqrstuvwxyz0123456789-_''"

definition sextet :: "nat \<Rightarrow> 32 word \<Rightarrow> nat" where
  "sextet k val = unat (drop_bit k val AND 0x3F)"

fun EncodeToString :: "string \<Rightarrow> byte list \<Rightarrow> string" where
  "EncodeToString enc (a # b # c # src) =
     (let val = push_bit 16 (ucast a) OR push_bit 8 (ucast b) OR ucast c
      in enc ! sextet 18 val # enc ! sextet 12 val # enc ! sextet 6 val # enc ! sextet 0 val
           # EncodeToString enc src)"
| "EncodeToString enc [a, b] =
     (let val = push_bit 16 (ucast a) OR push_bit 8 (ucast b)
      in [enc ! sextet 18 val, enc ! sextet 12 val, enc ! sextet 6 val, CHR ''=''])"
| "EncodeToString enc [a] =
     (let val = push_bit 16 (ucast a)
      in [enc ! sextet 18 val, enc ! sextet 12 val, CHR ''='', CHR ''=''])"
| "EncodeToString enc [] = []"

fun decodeMap :: "string \<Rightarrow> char \<Rightarrow> nat option" where
  "decodeMap [] c = None"
| "decodeMap (x # xs) c = (if x = c then Some 0 else map_option Suc (decodeMap xs c))"

definition quantum :: "nat \<Rightarrow> nat \<Rightarrow> nat \<Rightarrow> nat \<Rightarrow> 32 word" where
  "quantum d0 d1 d2 d3 =
     push_bit 18 (of_nat d0) OR push_bit 12 (of_nat d1) OR push_bit 6 (of_nat d2) OR of_nat d3"

fun decode :: "string \<Rightarrow> string \<Rightarrow> error + byte list" where
  "decode enc [] = Inr []"
| "decode enc (c0 # c1 # c2 # c3 # src) =
     (case (decodeMap enc c0, decodeMap enc c1) of
        (Some d0, Some d1) \<Rightarrow>
          if c2 = CHR ''='' then
            (if c3 = CHR ''='' \<and> src = []
             then Inr [ucast (drop_bit 16 (quantum d0 d1 0 0))]
             else Inl CorruptInputError)
          else (case decodeMap enc c2 of
            None \<Rightarrow> Inl CorruptInputError
          | Some d2 \<Rightarrow>
              if c3 = CHR ''='' then
                (if src = []
                 then Inr [ucast (drop_bit 16 (quantum d0 d1 d2 0)),
                           ucast (drop_bit 8 (quantum d0 d1 d2 0))]
                 else Inl CorruptInputError)
              else (case decodeMap enc c3 of
                None \<Rightarrow> Inl CorruptInputError
              | Some d3 \<Rightarrow>
                  (case decode enc src of
                     Inl e \<Rightarrow> Inl e
                   | Inr bs \<Rightarrow>
                       Inr (ucast (drop_bit 16 (quantum d0 d1 d2 d3))
                            # ucast (drop_bit 8 (quantum d0 d1 d2 d3))
                            # ucast (quantum d0 d1 d2 d3) # bs))))
      | _ \<Rightarrow> Inl CorruptInputError)"
| "decode enc _ = Inl CorruptInputError"

definition DecodeString :: "string \<Rightarrow> string \<Rightarrow> error + byte list" where
  "DecodeString enc s = decode enc (filter (\<lambda>c. c \<noteq> CHR 0x0D \<and> c \<noteq> CHR 0x0A) s)"

subsection \<open>net/url\<close>

text \<open>
  \<open>url.Values{k: {v}}.Encode()\<close> is \<open>k=v\<close> with both sides query-escaped: letters,
  digits and \<open>-_.~\<close> stay, a space becomes \<open>+\<close>, every other byte becomes \<open>%XX\<close>.
\<close>

definition unreserved :: string where
  "unreserved =
     ''ABCDEFGHIJKLMNOPQRSTUVWXYZabcdefghijklmnopqrstuvwxyz0123456789-_.~''"

definition QueryEscape :: "string \<Rightarrow> string" where
  "QueryEscape s =
     concat (map (\<lambda>c. if c \<in> set unreserved then [c]
                       else if c = CHR '' '' then ''+''
                       else [CHR ''%'', ''0123456789ABCDEF'' ! (of_char c div 16),
                             ''0123456789ABCDEF'' ! (of_char c mod 16)]) s)"

section \<open>Package authboss: the parts the recover module uses\<close>

subsection \<open>User attributes\<close>

text \<open>
  \<open>authboss.Attributes\<close> is \<open>map[string]interface{}\<close>: a map from attribute names to
  dynamically typed values. A \<open>time.Time\<close> is an integer count of nanoseconds, the zero
  \<open>time.Time\<close> is 0, \<open>Add\<close> is addition and \<open>t.After(u)\<close> is \<open>u < t\<close>.
\<close>

datatype attr_value = VString string | VDateTime int | VInteger int | VBool bool

type_synonym Attributes = "string \<rightharpoonup> attr_value"

definition After :: "int \<Rightarrow> int \<Rightarrow> bool" where
  "After t u = (u < t)"

text \<open>
  Modelled from the spec: the accessors \<open>Attributes.StringErr\<close> and
  \<open>Attributes.DateTime\<close> are declared in package authboss, outside this file. By spec
  section 9 a user record is read through a key of the map with a runtime type assertion:
  \<open>StringErr\<close> fails when the key is absent or its value is not a string, \<open>DateTime\<close>
  reports \<open>ok = false\<close> (here \<open>None\<close>) when the key is absent or its value is not a
  timestamp.
\<close>

definition StringErr :: "Attributes \<Rightarrow> string \<Rightarrow> error + string" where
  "StringErr a key =
     (case a key of Some (VString s) \<Rightarrow> Inr s | _ \<Rightarrow> Inl (AttributeErr key))"

definition DateTime :: "Attributes \<Rightarrow> string \<Rightarrow> int option" where
  "DateTime a key = (case a key of Some (VDateTime t) \<Rightarrow> Some t | _ \<Rightarrow> None)"

text \<open>
  Modelled from the spec: the attribute names \<open>authboss.StoreEmail\<close> and
  \<open>authboss.StorePassword\<close> and the session keys \<open>authboss.FlashSuccessKey\<close> and
  \<open>authboss.SessionKey\<close> are constants of package authboss, outside this file. The user
  record of spec section 3 has an email and a password hash; the session carries a
  success message and the identifier of the signed-in user.
\<close>

definition StoreEmail :: string where "StoreEmail = ''email''"
definition StorePassword :: string where "StorePassword = ''password''"
definition FlashSuccessKey :: string where "FlashSuccessKey = ''flash_success''"
definition SessionKey :: string where "SessionKey = ''uid''"

subsection \<open>The store\<close>

text \<open>The storage constants of package recover.\<close>

definition StoreRecoverToken :: string where "StoreRecoverToken = ''recover_token''"
definition StoreRecoverTokenExpiry :: string where
  "StoreRecoverTokenExpiry = ''recover_token_expiry''"

text \<open>
  Modelled from the spec: the store behind the \<open>RecoverStorer\<close> interface is supplied
  by the application. Spec section 4.3 gives its contract: \<open>FindByIdentifier\<close> (\<open>Get\<close>),
  \<open>FindByFingerprint\<close> (\<open>RecoverUser\<close>, which by the interface comment in the source
  returns \<open>ErrUserNotFound\<close> when no record has the token) and \<open>Save\<close> (\<open>Put\<close>), each
  of which may fail with a persistence error. The reference store keeps one attribute map
  per user; \<open>Fault\<close> is the persistence failure it is set to report, and \<open>Puts\<close> logs
  every accepted write (the store-write counter of spec section 8). Primary identifiers
  are unique, so \<open>Put\<close> replaces every record of that identifier. \<open>authboss.Unbind\<close>
  is the identity on attribute maps.
\<close>

record Store =
  Users :: "Attributes list"
  Puts :: "(string \<times> Attributes) list"
  Fault :: "string option"

definition Store_Get :: "string \<Rightarrow> Store \<Rightarrow> string \<Rightarrow> error + Attributes" where
  "Store_Get pid st key =
     (case Fault st of
        Some msg \<Rightarrow> Inl (ExternalErr msg)
      | None \<Rightarrow>
          (case find (\<lambda>u. u pid = Some (VString key)) (Users st) of
             None \<Rightarrow> Inl ErrUserNotFound
           | Some u \<Rightarrow> Inr u))"

definition RecoverUser :: "Store \<Rightarrow> string \<Rightarrow> error + Attributes" where
  "RecoverUser st recoverToken =
     (case Fault st of
        Some msg \<Rightarrow> Inl (ExternalErr msg)
      | None \<Rightarrow>
          (case find (\<lambda>u. u StoreRecoverToken = Some (VString recoverToken)) (Users st) of
             None \<Rightarrow> Inl ErrUserNotFound
           | Some u \<Rightarrow> Inr u))"

definition Store_Put :: "string \<Rightarrow> Store \<Rightarrow> string \<Rightarrow> Attributes \<Rightarrow> error + Store" where
  "Store_Put pid st key attrs =
     (case Fault st of
        Some msg \<Rightarrow> Inl (ExternalErr msg)
      | None \<Rightarrow>
          Inr (st\<lparr>Users :=
                     (if list_ex (\<lambda>u. u pid = Some (VString key)) (Users st)
                      then map (\<lambda>u. if u pid = Some (VString key) then attrs else u) (Users st)
                      else Users st @ [attrs]),
                   Puts := Puts st @ [(key, attrs)]\<rparr>))"

subsection \<open>Requests, responses, the context\<close>

record Request =
  Method :: string
  Form :: "string \<rightharpoonup> string"

definition FormValue :: "Request \<Rightarrow> string \<Rightarrow> string" where
  "FormValue r key = (case Form r key of None \<Rightarrow> [] | Some v \<Rightarrow> v)"

datatype html_value = DString string | DErrs "(string \<times> string list) list"

type_synonym HTMLData = "(string \<times> html_value) list"

text \<open>
  What a handler writes to the \<open>http.ResponseWriter\<close>: a rendered template with its
  data, a call of \<open>response.Redirect\<close> with its path, its two flash arguments and its
  \<open>followRedir\<close> flag, or a bare status code.
\<close>

datatype Response =
    Render string HTMLData
  | Redirect string string string bool
  | WriteHeader nat

record Email =
  To :: "string list"
  From :: string
  Subject :: string

record Context =
  User :: "Attributes option"
  Storer :: Store
  SessionStorer :: "string \<rightharpoonup> string"
  Mailer :: "(Email \<times> string) list"
  LogWriter :: "(string \<times> error) list"

text \<open>The configuration fields of \<open>*authboss.Authboss\<close> that the module reads.\<close>

record Recover =
  PrimaryID :: string
  RecoverOKPath :: string
  AuthLoginOKPath :: string
  RecoverTokenDuration :: int
  BCryptCost :: int
  MountPath :: string
  RootURL :: string
  EmailFrom :: string
  EmailSubjectPrefix :: string

text \<open>
  The collaborators of one request, taken as parameters: the clock, the bytes
  \<open>crypto/rand\<close> delivers (or its failure), \<open>bcrypt.GenerateFromPassword\<close>, the policy
  validation of a form field (\<open>authboss.Validate\<close> over \<open>FilterValidators\<close>, as the map of
  its errors), template loading, the \<open>AfterPasswordReset\<close> callbacks, mail delivery and
  \<open>path.Join\<close>.
\<close>

record Env =
  time_Now :: int
  rand_Reader :: "error + byte list"
  bcrypt_GenerateFromPassword :: "string \<Rightarrow> int \<Rightarrow> error + string"
  Validate :: "Request \<Rightarrow> string \<Rightarrow> (string \<times> string list) list"
  LazyLoadTemplates :: "string \<Rightarrow> error option"
  FireAfter :: "Context \<Rightarrow> error option"
  response_Email :: "Email \<Rightarrow> string \<Rightarrow> error option"
  path_Join :: "string \<Rightarrow> string \<Rightarrow> string"

text \<open>
  A nil \<open>Attributes\<close> map reads as the empty map. The handlers assign to \<open>ctx.User\<close>
  only after it has been loaded.
\<close>

definition Attrs :: "Context \<Rightarrow> Attributes" where
  "Attrs ctx = (case User ctx of None \<Rightarrow> Map.empty | Some u \<Rightarrow> u)"

definition SetAttr :: "Context \<Rightarrow> string \<Rightarrow> attr_value \<Rightarrow> Context" where
  "SetAttr ctx key v = ctx\<lparr>User := Some ((Attrs ctx)(key \<mapsto> v))\<rparr>"

text \<open>
  Modelled from the spec: \<open>ctx.LoadUser\<close> and \<open>ctx.SaveUser\<close> are methods of
  \<open>authboss.Context\<close>, outside this file. By spec section 4.2 \<open>LoadUser\<close> looks the
  user up by identifier, and \<open>SaveUser\<close> persists the loaded user under its primary
  identifier in one \<open>Save\<close>.
\<close>

definition LoadUser :: "Recover \<Rightarrow> Context \<Rightarrow> string \<Rightarrow> error + Context" where
  "LoadUser rec ctx key =
     (case Store_Get (PrimaryID rec) (Storer ctx) key of
        Inl err \<Rightarrow> Inl err
      | Inr user \<Rightarrow> Inr (ctx\<lparr>User := Some user\<rparr>))"

definition SaveUser :: "Recover \<Rightarrow> Context \<Rightarrow> error + Context" where
  "SaveUser rec ctx =
     (case StringErr (Attrs ctx) (PrimaryID rec) of
        Inl err \<Rightarrow> Inl err
      | Inr key \<Rightarrow>
          (case Store_Put (PrimaryID rec) (Storer ctx) key (Attrs ctx) of
             Inl err \<Rightarrow> Inl err
           | Inr st \<Rightarrow> Inr (ctx\<lparr>Storer := st\<rparr>)))"

section \<open>Package recover\<close>

definition formValueToken :: string where "formValueToken = ''token''"

definition methodGET :: string where "methodGET = ''GET''"
definition methodPOST :: string where "methodPOST = ''POST''"

definition tplRecover :: string where "tplRecover = ''recover.html.tpl''"
definition tplRecoverComplete :: string where
  "tplRecoverComplete = ''recover_complete.html.tpl''"

definition recoverInitiateSuccessFlash :: string where
  "recoverInitiateSuccessFlash =
     ''An email has been sent with further instructions on how to reset your password''"
definition recoverTokenExpiredFlash :: string where
  "recoverTokenExpiredFlash = ''Account recovery request has expired. Please try again.''"
definition recoverFailedErrorFlash :: string where
  "recoverFailedErrorFlash = ''Account recovery has failed. Please contact tech support.''"

text \<open>
  \<open>rand.Read\<close> is \<open>io.ReadFull\<close> on the random source: it fills the whole buffer or
  fails. The source either fails with its own error or delivers the bytes \<open>bs\<close> and
  then ends. When it ends before the buffer is full, \<open>rand.Read\<close> fails with \<open>io.EOF\<close>
  if no byte was read and with \<open>io.ErrUnexpectedEOF\<close> otherwise; a read of fewer than
  32 bytes never lets \<open>newToken\<close> succeed.
\<close>

definition rand_Read :: "Env \<Rightarrow> byte list \<Rightarrow> error + byte list" where
  "rand_Read env buf =
     (case rand_Reader env of
        Inl err \<Rightarrow> Inl err
      | Inr bs \<Rightarrow>
          if length bs < length buf
          then Inl (if bs = [] then EOF else ErrUnexpectedEOF)
          else Inr (take (length buf) bs))"

definition newToken :: "Env \<Rightarrow> error + string \<times> string" where
  "newToken env =
     (case rand_Read env (replicate 32 0) of
        Inl err \<Rightarrow> Inl err
      | Inr token \<Rightarrow>
          (let sum = md5_Sum token
           in Inr (EncodeToString encodeURL token, EncodeToString encodeStd sum)))"

text \<open>
  \<open>sendRecoverEmail\<close> builds the link and hands it to the mailer; a delivery failure is
  logged only, as the line's text and the error printed after it. \<open>goRecoverEmail\<close> calls it directly or in a goroutine; the goroutine is
  taken to have run when the handler returns.
\<close>

definition sendRecoverEmail :: "Recover \<Rightarrow> Env \<Rightarrow> Context \<Rightarrow> string \<Rightarrow> string \<Rightarrow> Context" where
  "sendRecoverEmail r env ctx to encodedToken =
     (let p = path_Join env (MountPath r) ''recover/complete'';
          query = QueryEscape formValueToken @ ''='' @ QueryEscape encodedToken;
          url = RootURL r @ p @ ''?'' @ query;
          email = \<lparr>To = [to], From = EmailFrom r,
                   Subject = EmailSubjectPrefix r @ ''Password Reset''\<rparr>
      in case response_Email env email url of
           None \<Rightarrow> ctx\<lparr>Mailer := Mailer ctx @ [(email, url)]\<rparr>
         | Some err \<Rightarrow>
             ctx\<lparr>LogWriter :=
                   LogWriter ctx @ [(''recover: failed to send recover email:'', err)]\<rparr>)"

definition goRecoverEmail :: "Recover \<Rightarrow> Env \<Rightarrow> Context \<Rightarrow> string \<Rightarrow> string \<Rightarrow> Context" where
  "goRecoverEmail r env ctx to encodedToken = sendRecoverEmail r env ctx to encodedToken"

text \<open>\<open>verifyToken\<close> expects a base64.URLEncoded token.\<close>

definition verifyToken :: "Env \<Rightarrow> Context \<Rightarrow> Request \<Rightarrow> error + Attributes" where
  "verifyToken env ctx r =
     (let token = FormValue r formValueToken
      in if length token = 0 then Inl (ClientDataErr token)
         else
           (case DecodeString encodeURL token of
              Inl err \<Rightarrow> Inl err
            | Inr decoded \<Rightarrow>
                (let sum = md5_Sum decoded
                 in case RecoverUser (Storer ctx) (EncodeToString encodeStd sum) of
                      Inl err \<Rightarrow> Inl err
                    | Inr attrs \<Rightarrow>
                        (case DateTime attrs StoreRecoverTokenExpiry of
                           None \<Rightarrow> Inl errRecoveryTokenExpired
                         | Some expiry \<Rightarrow>
                             if After (time_Now env) expiry
                             then Inl errRecoveryTokenExpired
                             else Inr attrs))))"

definition startHandlerFunc ::
  "Recover \<Rightarrow> Env \<Rightarrow> Context \<Rightarrow> Request \<Rightarrow> (error + Response) \<times> Context" where
  "startHandlerFunc rec env ctx r =
     (case LazyLoadTemplates env tplRecover of
        Some err \<Rightarrow> (Inl err, ctx)
      | None \<Rightarrow>
          if Method r = methodGET then
            (Inr (Render tplRecover
                    [(''primaryID'', DString (PrimaryID rec)),
                     (''primaryIDValue'', DString []),
                     (''confirmPrimaryIDValue'', DString [])]), ctx)
          else if Method r = methodPOST then
            (let primaryID = FormValue r (PrimaryID rec);
                 confirmPrimaryID = FormValue r (''confirm_'' @ PrimaryID rec);
                 errData = [(''primaryID'', DString (PrimaryID rec)),
                            (''primaryIDValue'', DString primaryID),
                            (''confirmPrimaryIDValue'', DString confirmPrimaryID)];
                 validationErrs = Validate env r (PrimaryID rec)
             in if length validationErrs > 0 then
                  (Inr (Render tplRecover (errData @ [(''errs'', DErrs validationErrs)])), ctx)
                else
                  (case LoadUser rec ctx primaryID of
                     Inl err \<Rightarrow>
                       if err = ErrUserNotFound then
                         (Inl (ErrAndRedirect err (RecoverOKPath rec)
                                 recoverInitiateSuccessFlash []), ctx)
                       else (Inl err, ctx)
                   | Inr ctx1 \<Rightarrow>
                       (case StringErr (Attrs ctx1) StoreEmail of
                          Inl err \<Rightarrow> (Inl err, ctx1)
                        | Inr email \<Rightarrow>
                            (case newToken env of
                               Inl err \<Rightarrow> (Inl err, ctx1)
                             | Inr (encodedToken, encodedChecksum) \<Rightarrow>
                                 (let ctx2 = SetAttr ctx1 StoreRecoverToken
                                               (VString encodedChecksum);
                                      ctx3 = SetAttr ctx2 StoreRecoverTokenExpiry
                                               (VDateTime (time_Now env
                                                  + RecoverTokenDuration rec))
                                  in case SaveUser rec ctx3 of
                                       Inl err \<Rightarrow> (Inl err, ctx3)
                                     | Inr ctx4 \<Rightarrow>
                                         (let ctx5 = goRecoverEmail rec env ctx4 email
                                                       encodedToken;
                                              ctx6 = ctx5\<lparr>SessionStorer :=
                                                (SessionStorer ctx5)(FlashSuccessKey \<mapsto>
                                                   recoverInitiateSuccessFlash)\<rparr>
                                          in (Inr (Redirect (RecoverOKPath rec) [] [] True),
                                              ctx6)))))))
          else (Inr (WriteHeader 405), ctx))"

definition completeHandlerFunc ::
  "Recover \<Rightarrow> Env \<Rightarrow> Context \<Rightarrow> Request \<Rightarrow> (error + Response) \<times> Context" where
  "completeHandlerFunc r env ctx req =
     (case LazyLoadTemplates env tplRecoverComplete of
        Some err \<Rightarrow> (Inl err, ctx)
      | None \<Rightarrow>
          if Method req = methodGET then
            (case verifyToken env ctx req of
               Inl err \<Rightarrow>
                 if err = errRecoveryTokenExpired then
                   (Inl (ErrAndRedirect err ''/recover'' [] recoverTokenExpiredFlash), ctx)
                 else (Inl (ErrAndRedirect err ''/'' [] []), ctx)
             | Inr _ \<Rightarrow>
                 (let token = FormValue req formValueToken
                  in (Inr (Render tplRecoverComplete [(formValueToken, DString token)]),
                      ctx)))
          else if Method req = methodPOST then
            (let token = FormValue req formValueToken
             in if length token = 0 then (Inl (ClientDataErr formValueToken), ctx)
                else
                  (let password = FormValue req StorePassword;
                       validationErrs = Validate env req StorePassword
                   in if length validationErrs > 0 then
                        (Inr (Render tplRecoverComplete
                                [(formValueToken, DString token),
                                 (''errs'', DErrs validationErrs)]), ctx)
                      else
                        (case verifyToken env ctx req of
                           Inl err \<Rightarrow> (Inl err, ctx\<lparr>User := None\<rparr>)
                         | Inr attrs \<Rightarrow>
                             (let ctx1 = ctx\<lparr>User := Some attrs\<rparr>
                              in case bcrypt_GenerateFromPassword env password
                                        (BCryptCost r) of
                                   Inl err \<Rightarrow> (Inl err, ctx1)
                                 | Inr encryptedPassword \<Rightarrow>
                                     (let ctx2 = SetAttr ctx1 StorePassword
                                                   (VString encryptedPassword);
                                          ctx3 = SetAttr ctx2 StoreRecoverToken (VString []);
                                          nullTime = 0;
                                          ctx4 = SetAttr ctx3 StoreRecoverTokenExpiry
                                                   (VDateTime nullTime)
                                      in case StringErr (Attrs ctx4) (PrimaryID r) of
                                           Inl err \<Rightarrow> (Inl err, ctx4)
                                         | Inr primaryID \<Rightarrow>
                                             (case SaveUser r ctx4 of
                                                Inl err \<Rightarrow> (Inl err, ctx4)
                                              | Inr ctx5 \<Rightarrow>
                                                  (case FireAfter env ctx5 of
                                                     Some err \<Rightarrow> (Inl err, ctx5)
                                                   | None \<Rightarrow>
                                                       (let ctx6 = ctx5\<lparr>SessionStorer :=
                                                          (SessionStorer ctx5)(SessionKey
                                                             \<mapsto> primaryID)\<rparr>
                                                        in (Inr (Redirect (AuthLoginOKPath r)
                                                                   [] [] True),
                                                            ctx6)))))))))
          else (Inr (WriteHeader 405), ctx))"

section \<open>Notions the claims use\<close>

text \<open>
  The redirect target and the success message that the outcome of a handler names: the
  \<open>Location\<close> and \<open>FlashSuccess\<close> of a returned \<open>ErrAndRedirect\<close>, or the path handed
  to \<open>response.Redirect\<close> and the message the handler has put into the session under
  \<open>FlashSuccessKey\<close>. How the framework answers from them, and what the \<open>followRedir\<close>
  flag of \<open>response.Redirect\<close> does, is decided outside this file.
\<close>

definition redirect_target :: "error + Response \<Rightarrow> string option" where
  "redirect_target outcome =
     (case outcome of
        Inl (ErrAndRedirect err location flashSuccess flashError) \<Rightarrow> Some location
      | Inr (Redirect path flashSuccess flashErr followRedir) \<Rightarrow> Some path
      | _ \<Rightarrow> None)"

definition flash_success :: "(error + Response) \<times> Context \<Rightarrow> string option" where
  "flash_success result =
     (case fst result of
        Inl (ErrAndRedirect err location flashSuccess flashError) \<Rightarrow> Some flashSuccess
      | _ \<Rightarrow> SessionStorer (snd result) FlashSuccessKey)"

section \<open>A worked scenario\<close>

text \<open>
  The scenario of spec section 8: a store holding the user alice, a configuration, a
  request environment with a fixed clock and fixed random bytes, and the token that
  \<open>newToken\<close> makes from 32 zero bytes. A second user, carol, serves where two records
  hold the same fingerprint.
\<close>

definition config :: Recover where
  "config = \<lparr>PrimaryID = ''username'', RecoverOKPath = ''/login'', AuthLoginOKPath = ''/'',
     RecoverTokenDuration = 3600, BCryptCost = 10, MountPath = ''/auth'',
     RootURL = ''https://example.com'', EmailFrom = ''noreply@example.com'',
     EmailSubjectPrefix = ''[example] ''\<rparr>"

definition world :: "int \<Rightarrow> error + byte list \<Rightarrow> Env" where
  "world now entropy =
     \<lparr>time_Now = now, rand_Reader = entropy,
      bcrypt_GenerateFromPassword = (\<lambda>password cost. Inr (''$2a$'' @ password)),
      Validate = (\<lambda>r field. if length (FormValue r field) < 8
                              then [(field, [''Must be at least 8 characters''])] else []),
      LazyLoadTemplates = (\<lambda>tpl. None),
      FireAfter = (\<lambda>ctx. None),
      response_Email = (\<lambda>email url. None),
      path_Join = (\<lambda>a b. a @ ''/'' @ b)\<rparr>"

definition alice :: Attributes where
  "alice = [''username'' \<mapsto> VString ''alice@example.com'',
            ''email'' \<mapsto> VString ''alice@example.com'',
            ''password'' \<mapsto> VString ''$2a$OldPass0!'']"

definition issued :: "Attributes \<Rightarrow> string \<Rightarrow> int \<Rightarrow> Attributes" where
  "issued u fingerprint expiry =
     u(''recover_token'' \<mapsto> VString fingerprint, ''recover_token_expiry'' \<mapsto> VDateTime expiry)"

definition context_of :: "Attributes list \<Rightarrow> Context" where
  "context_of users = \<lparr>User = None, Storer = \<lparr>Users = users, Puts = [], Fault = None\<rparr>,
     SessionStorer = Map.empty, Mailer = [], LogWriter = []\<rparr>"

definition post :: "(string \<times> string) list \<Rightarrow> Request" where
  "post form = \<lparr>Method = ''POST'', Form = map_of form\<rparr>"

definition secret0 :: string where
  "secret0 = ''AAAAAAAAAAAAAAAAAAAAAAAAAAAAAAAAAAAAAAAAAAA=''"

definition fingerprint0 :: string where
  "fingerprint0 = ''cLyPS3KoaSFGi/joRB3OUQ==''"



definition r_initiate :: Request where
  "r_initiate = post [(''username'', ''alice@example.com''),
                      (''confirm_username'', ''alice@example.com'')]"



definition store_of :: "Attributes list \<Rightarrow> (string \<times> Attributes) list \<Rightarrow> Store" where
  "store_of users puts = \<lparr>Users = users, Puts = puts, Fault = None\<rparr>"

definition r_unknown :: Request where
  "r_unknown = post [(''username'', ''bob@example.com''),
                     (''confirm_username'', ''bob@example.com'')]"

definition r_invalid :: Request where
  "r_invalid = post [(''token'', ''!!!!''), (''password'', ''short'')]"

definition r_malformed :: Request where
  "r_malformed = post [(''token'', ''!!!!''), (''password'', ''NewPass1!'')]"


definition issued_once :: Context where
  "issued_once =
     snd (startHandlerFunc config (world 1000 (Inr (replicate 32 0))) (context_of [alice]) r_initiate)"







section \<open>Properties of the library functions\<close>

lemma encodeURL_props:
  "distinct encodeURL" "length encodeURL = 64" "CHR ''='' \<notin> set encodeURL"
  "CHR 0x0D \<notin> set encodeURL" "CHR 0x0A \<notin> set encodeURL"
  by (simp_all add: encodeURL_def)

lemma encodeStd_props:
  "distinct encodeStd" "length encodeStd = 64" "CHR ''='' \<notin> set encodeStd"
  "CHR 0x0D \<notin> set encodeStd" "CHR 0x0A \<notin> set encodeStd"
  by (simp_all add: encodeStd_def)



lemma EncodeToString_Nil_iff: "EncodeToString enc xs = [] \<longleftrightarrow> xs = []"
  by (induction enc xs rule: EncodeToString.induct) (simp_all add: Let_def)


lemma sextet_lt: "sextet k v < 64"
proof -
  have "drop_bit k v AND 0x3F \<le> 0x3F" by (rule word_and_le1)
  then show ?thesis unfolding sextet_def by (simp add: word_le_nat_alt)
qed

lemma decodeMap_nth: "distinct enc \<Longrightarrow> n < length enc \<Longrightarrow> decodeMap enc (enc ! n) = Some n"
proof (induction enc arbitrary: n)
  case Nil then show ?case by simp
next
  case (Cons x xs)
  show ?case
  proof (cases n)
    case 0 then show ?thesis by simp
  next
    case (Suc m)
    with Cons.prems have "m < length xs" "distinct xs" "xs ! m \<noteq> x" by auto
    with Cons.IH Suc show ?thesis by auto
  qed
qed

lemma and_3F: "(x :: 32 word) AND 0x3F = take_bit 6 x"
proof -
  have "(0x3F :: 32 word) = mask 6" by (simp add: mask_eq_exp_minus_1)
  then show ?thesis by (simp add: take_bit_eq_mask)
qed

lemma quantum_sextets:
  assumes "drop_bit 24 v = 0"
  shows "quantum (sextet 18 v) (sextet 12 v) (sextet 6 v) (sextet 0 v) = v"
proof (rule bit_word_eqI)
  fix n assume n: "n < LENGTH(32)"
  have hi: "\<not> bit v m" if "24 \<le> m" for m
  proof -
    have "bit (drop_bit 24 v) (m - 24) = bit v m" using that by (simp add: bit_drop_bit_eq)
    with assms show ?thesis by simp
  qed
  show "bit (quantum (sextet 18 v) (sextet 12 v) (sextet 6 v) (sextet 0 v)) n = bit v n"
  proof -
    consider "n < 6" | "6 \<le> n" "n < 12" | "12 \<le> n" "n < 18" | "18 \<le> n" "n < 24" | "24 \<le> n"
      by linarith
    then show ?thesis
    proof cases
      case 1 then show ?thesis using n by (auto simp: quantum_def sextet_def and_3F bit_simps)
    next
      case 2 then show ?thesis using n by (auto simp: quantum_def sextet_def and_3F bit_simps)
    next
      case 3 then show ?thesis using n by (auto simp: quantum_def sextet_def and_3F bit_simps)
    next
      case 4 then show ?thesis using n by (auto simp: quantum_def sextet_def and_3F bit_simps)
    next
      case 5 then show ?thesis using n hi [of n]
        by (auto simp add: quantum_def sextet_def and_3F bit_simps)
    qed
  qed
qed

lemma bytes_of_val:
  fixes a b c :: byte
  defines "v \<equiv> push_bit 16 (ucast a) OR push_bit 8 (ucast b) OR ucast c :: 32 word"
  shows "drop_bit 24 v = 0" "ucast (drop_bit 16 v) = a" "ucast (drop_bit 8 v) = b" "ucast v = c"
  unfolding v_def
  by (rule bit_word_eqI; auto simp: bit_simps dest: bit_imp_le_length)+

lemma sextet_low_zero:
  fixes a b :: byte
  shows "sextet 0 (push_bit 16 (ucast a) OR push_bit 8 (ucast b)) = 0"
    and "sextet 6 (push_bit 16 (ucast a)) = 0"
    and "sextet 0 (push_bit 16 (ucast a)) = 0"
proof -
  have "take_bit 6 (push_bit 16 (ucast a) OR push_bit 8 (ucast b) :: 32 word) = 0"
    by (rule bit_word_eqI) (auto simp: bit_simps)
  then show "sextet 0 (push_bit 16 (ucast a) OR push_bit 8 (ucast b)) = 0"
    by (simp add: sextet_def and_3F)
  have "take_bit 6 (drop_bit 6 (push_bit 16 (ucast a) :: 32 word)) = 0"
    by (rule bit_word_eqI) (auto simp: bit_simps)
  then show "sextet 6 (push_bit 16 (ucast a)) = 0"
    by (simp add: sextet_def and_3F)
  have "take_bit 6 (push_bit 16 (ucast a) :: 32 word) = 0"
    by (rule bit_word_eqI) (auto simp: bit_simps)
  then show "sextet 0 (push_bit 16 (ucast a)) = 0"
    by (simp add: sextet_def and_3F)
qed

lemma decode_EncodeToString:
  assumes enc: "distinct enc" "length enc = 64" "CHR ''='' \<notin> set enc"
  shows "decode enc (EncodeToString enc xs) = Inr xs"
  using enc
proof (induction enc xs rule: EncodeToString.induct)
  case (1 enc a b c src)
  define v :: "32 word" where "v = push_bit 16 (ucast a) OR push_bit 8 (ucast b) OR ucast c"
  have dm: "decodeMap enc (enc ! sextet k v) = Some (sextet k v)" for k
    using "1.prems" sextet_lt [of k v] by (simp add: decodeMap_nth)
  have ne: "enc ! sextet k v \<noteq> CHR ''=''" for k
  proof -
    have "sextet k v < length enc" using "1.prems" sextet_lt [of k v] by simp
    then have "enc ! sextet k v \<in> set enc" by (rule nth_mem)
    with "1.prems" show ?thesis by metis
  qed
  have q: "quantum (sextet 18 v) (sextet 12 v) (sextet 6 v) (sextet 0 v) = v"
    unfolding v_def by (rule quantum_sextets) (rule bytes_of_val)
  have bs: "ucast (drop_bit 16 v) = a" "ucast (drop_bit 8 v) = b" "ucast v = c"
    unfolding v_def by (rule bytes_of_val)+
  have "decode enc (EncodeToString enc src) = Inr src" using 1 by simp
  then show ?case
    by (simp add: Let_def v_def [symmetric] dm ne q bs)
next
  case (2 enc a b)
  define v :: "32 word" where "v = push_bit 16 (ucast a) OR push_bit 8 (ucast b)"
  have v': "v = push_bit 16 (ucast a) OR push_bit 8 (ucast b) OR ucast (0 :: byte)"
    by (simp add: v_def)
  have dm: "decodeMap enc (enc ! sextet k v) = Some (sextet k v)" for k
    using 2 sextet_lt [of k v] by (simp add: decodeMap_nth)
  have ne: "enc ! sextet k v \<noteq> CHR ''=''" for k
  proof -
    have "sextet k v < length enc" using 2 sextet_lt [of k v] by simp
    then have "enc ! sextet k v \<in> set enc" by (rule nth_mem)
    with 2 show ?thesis by metis
  qed
  have z: "sextet 0 v = 0" unfolding v_def by (rule sextet_low_zero)
  have "quantum (sextet 18 v) (sextet 12 v) (sextet 6 v) (sextet 0 v) = v"
    unfolding v' by (rule quantum_sextets) (rule bytes_of_val)
  then have q: "quantum (sextet 18 v) (sextet 12 v) (sextet 6 v) 0 = v" by (simp add: z)
  have bs: "ucast (drop_bit 16 v) = a" "ucast (drop_bit 8 v) = b"
    unfolding v' by (rule bytes_of_val)+
  show ?case
    by (simp add: Let_def v_def [symmetric] dm ne q bs)
next
  case (3 enc a)
  define v :: "32 word" where "v = push_bit 16 (ucast a)"
  have v': "v = push_bit 16 (ucast a) OR push_bit 8 (ucast (0 :: byte)) OR ucast (0 :: byte)"
    by (simp add: v_def)
  have dm: "decodeMap enc (enc ! sextet k v) = Some (sextet k v)" for k
    using 3 sextet_lt [of k v] by (simp add: decodeMap_nth)
  have z: "sextet 0 v = 0" "sextet 6 v = 0" unfolding v_def by (rule sextet_low_zero)+
  have "quantum (sextet 18 v) (sextet 12 v) (sextet 6 v) (sextet 0 v) = v"
    unfolding v' by (rule quantum_sextets) (rule bytes_of_val)
  then have q: "quantum (sextet 18 v) (sextet 12 v) 0 0 = v" by (simp add: z)
  have bs: "ucast (drop_bit 16 v) = a"
    unfolding v' by (rule bytes_of_val)
  show ?case
    by (simp add: Let_def v_def [symmetric] dm q bs)
next
  case (4 enc)
  show ?case by simp
qed

lemma set_EncodeToString:
  "length enc = 64 \<Longrightarrow> set (EncodeToString enc xs) \<subseteq> insert (CHR ''='') (set enc)"
proof (induction enc xs rule: EncodeToString.induct)
  case (1 enc a b c src)
  have "enc ! sextet k v \<in> set enc" for k v
    using 1(2) sextet_lt [of k v] by simp
  with 1 show ?case by (auto simp: Let_def)
next
  case (2 enc a b)
  have "enc ! sextet k v \<in> set enc" for k v
    using 2 sextet_lt [of k v] by simp
  then show ?case by (auto simp: Let_def)
next
  case (3 enc a)
  have "enc ! sextet k v \<in> set enc" for k v
    using 3 sextet_lt [of k v] by simp
  then show ?case by (auto simp: Let_def)
qed simp

lemma DecodeString_EncodeToString:
  assumes "distinct enc" "length enc = 64" "CHR ''='' \<notin> set enc"
    "CHR 0x0D \<notin> set enc" "CHR 0x0A \<notin> set enc"
  shows "DecodeString enc (EncodeToString enc xs) = Inr xs"
proof -
  have "\<forall>c \<in> set (EncodeToString enc xs). c \<noteq> CHR 0x0D \<and> c \<noteq> CHR 0x0A"
    using set_EncodeToString [OF assms(2), of xs] assms(4,5) by auto
  then have "filter (\<lambda>c. c \<noteq> CHR 0x0D \<and> c \<noteq> CHR 0x0A) (EncodeToString enc xs)
             = EncodeToString enc xs"
    by (simp add: filter_id_conv)
  then show ?thesis
    by (simp add: DecodeString_def decode_EncodeToString [OF assms(1-3)])
qed

section \<open>Properties of the store and of token verification\<close>


lemma RecoverUser_Inr:
  assumes "RecoverUser st k = Inr u"
  shows "u \<in> set (Users st)" "u StoreRecoverToken = Some (VString k)" "Fault st = None"
proof -
  from assms have f: "Fault st = None"
    and "find (\<lambda>u. u StoreRecoverToken = Some (VString k)) (Users st) = Some u"
    by (auto simp: RecoverUser_def split: option.splits)
  then show "u \<in> set (Users st)" "u StoreRecoverToken = Some (VString k)"
    by (auto simp: find_Some_iff)
  show "Fault st = None" by (rule f)
qed

lemma RecoverUser_NotFound:
  assumes "Fault st = None" "\<forall>u \<in> set (Users st). u StoreRecoverToken \<noteq> Some (VString k)"
  shows "RecoverUser st k = Inl ErrUserNotFound"
proof -
  have "find (\<lambda>u. u StoreRecoverToken = Some (VString k)) (Users st) = None"
    using assms(2) by (simp add: find_None_iff)
  with assms(1) show ?thesis by (simp add: RecoverUser_def)
qed

lemma decode_error: "decode enc s = Inl e \<Longrightarrow> e = CorruptInputError"
  by (induction enc s rule: decode.induct) (auto split: option.splits if_splits sum.splits)

lemma DecodeString_error: "DecodeString enc s = Inl e \<Longrightarrow> e = CorruptInputError"
  by (auto simp: DecodeString_def dest: decode_error)

lemma RecoverUser_error:
  "RecoverUser st k = Inl e \<Longrightarrow> e = ErrUserNotFound \<or> (\<exists>msg. e = ExternalErr msg)"
  by (auto simp: RecoverUser_def split: option.splits)

lemma verifyToken_decoded:
  assumes "FormValue r formValueToken \<noteq> []"
    and "DecodeString encodeURL (FormValue r formValueToken) = Inr decoded"
  shows "verifyToken env ctx r =
     (case RecoverUser (Storer ctx) (EncodeToString encodeStd (md5_Sum decoded)) of
        Inl err \<Rightarrow> Inl err
      | Inr attrs \<Rightarrow>
          (case DateTime attrs StoreRecoverTokenExpiry of
             None \<Rightarrow> Inl errRecoveryTokenExpired
           | Some expiry \<Rightarrow>
               if expiry < time_Now env then Inl errRecoveryTokenExpired else Inr attrs))"
  using assms by (simp add: verifyToken_def Let_def After_def split: sum.split option.split)


lemma rand_Read_length: "rand_Read env buf = Inr token \<Longrightarrow> length token = length buf"
  by (auto simp: rand_Read_def split: sum.splits if_splits)

lemma newToken_Inr:
  assumes "newToken env = Inr (secret, fingerprint)"
  obtains token where "rand_Read env (replicate 32 0) = Inr token" "length token = 32"
    "secret = EncodeToString encodeURL token"
    "fingerprint = EncodeToString encodeStd (md5_Sum token)"
proof -
  from assms obtain token where t: "rand_Read env (replicate 32 0) = Inr token"
    and s: "secret = EncodeToString encodeURL token"
       "fingerprint = EncodeToString encodeStd (md5_Sum token)"
    by (auto simp: newToken_def Let_def split: sum.splits)
  from rand_Read_length [OF t] have "length token = 32" by simp
  with t s show ?thesis by (auto intro: that)
qed

section \<open>Properties of the handlers\<close>




lemma SaveUser_Inr:
  assumes "SaveUser rec ctx = Inr ctx'"
  obtains key where "Attrs ctx (PrimaryID rec) = Some (VString key)"
    "Store_Put (PrimaryID rec) (Storer ctx) key (Attrs ctx) = Inr (Storer ctx')"
    "ctx' = ctx\<lparr>Storer := Storer ctx'\<rparr>"
  using assms
  by (auto simp: SaveUser_def StringErr_def split: option.splits sum.splits attr_value.splits)


lemma methods_distinct: "methodPOST \<noteq> methodGET"
  by (simp add: methodPOST_def methodGET_def)


lemma Store_Get_Inr:
  assumes "Store_Get pid st key = Inr u"
  shows "u \<in> set (Users st)" "u pid = Some (VString key)" "Fault st = None"
proof -
  from assms have f: "Fault st = None"
    and "find (\<lambda>u. u pid = Some (VString key)) (Users st) = Some u"
    by (auto simp: Store_Get_def split: option.splits)
  then show "u \<in> set (Users st)" "u pid = Some (VString key)"
    by (auto simp: find_Some_iff)
  show "Fault st = None" by (rule f)
qed

lemma sendRecoverEmail_keeps:
  "Storer (sendRecoverEmail rec env ctx to tok) = Storer ctx"
  "SessionStorer (sendRecoverEmail rec env ctx to tok) = SessionStorer ctx"
  "User (sendRecoverEmail rec env ctx to tok) = User ctx"
  by (simp_all add: sendRecoverEmail_def Let_def split: option.splits)

lemma start_redirect:
  assumes "startHandlerFunc rec env ctx r = (Inr (Redirect p fs fe fl), ctx')"
  obtains user secret fp key where
    "Store_Get (PrimaryID rec) (Storer ctx) (FormValue r (PrimaryID rec)) = Inr user"
    "newToken env = Inr (secret, fp)"
    "(user(StoreRecoverToken \<mapsto> VString fp,
           StoreRecoverTokenExpiry \<mapsto> VDateTime (time_Now env + RecoverTokenDuration rec)))
        (PrimaryID rec) = Some (VString key)"
    "Store_Put (PrimaryID rec) (Storer ctx) key
       (user(StoreRecoverToken \<mapsto> VString fp,
             StoreRecoverTokenExpiry \<mapsto> VDateTime (time_Now env + RecoverTokenDuration rec)))
       = Inr (Storer ctx')"
    "SessionStorer ctx' = (SessionStorer ctx)(FlashSuccessKey \<mapsto> recoverInitiateSuccessFlash)"
    "p = RecoverOKPath rec" "fs = []" "fe = []" "fl"
proof -
  from assms have post: "LazyLoadTemplates env tplRecover = None"
    "Method r \<noteq> methodGET" "Method r = methodPOST" "Validate env r (PrimaryID rec) = []"
    by (auto simp: startHandlerFunc_def Let_def split: option.splits if_splits sum.splits)
  from assms post obtain user where
    g: "Store_Get (PrimaryID rec) (Storer ctx) (FormValue r (PrimaryID rec)) = Inr user"
    by (cases "Store_Get (PrimaryID rec) (Storer ctx) (FormValue r (PrimaryID rec))")
       (auto simp: startHandlerFunc_def Let_def LoadUser_def split: if_splits)
  define ctx1 where "ctx1 = ctx\<lparr>User := Some user\<rparr>"
  have l: "LoadUser rec ctx (FormValue r (PrimaryID rec)) = Inr ctx1"
    by (simp add: LoadUser_def g ctx1_def)
  have a1: "Attrs ctx1 = user" by (simp add: ctx1_def Attrs_def)
  from assms post l a1 obtain email where e: "StringErr user StoreEmail = Inr email"
    by (cases "StringErr user StoreEmail") (auto simp: startHandlerFunc_def Let_def)
  from assms post l a1 e obtain secret fp where t: "newToken env = Inr (secret, fp)"
    by (cases "newToken env") (auto simp: startHandlerFunc_def Let_def)
  define saved where "saved = user(StoreRecoverToken \<mapsto> VString fp,
     StoreRecoverTokenExpiry \<mapsto> VDateTime (time_Now env + RecoverTokenDuration rec))"
  define ctx3 where "ctx3 = ctx\<lparr>User := Some saved\<rparr>"
  have a3: "Attrs ctx3 = saved" by (simp add: ctx3_def Attrs_def)
  have c3: "SetAttr (SetAttr ctx1 StoreRecoverToken (VString fp)) StoreRecoverTokenExpiry
              (VDateTime (time_Now env + RecoverTokenDuration rec)) = ctx3"
    by (simp add: SetAttr_def Attrs_def ctx1_def ctx3_def saved_def)
  have red: "startHandlerFunc rec env ctx r =
      (case SaveUser rec ctx3 of
         Inl err \<Rightarrow> (Inl err, ctx3)
       | Inr ctx4 \<Rightarrow>
           (Inr (Redirect (RecoverOKPath rec) [] [] True),
            (goRecoverEmail rec env ctx4 email secret)\<lparr>SessionStorer :=
               (SessionStorer (goRecoverEmail rec env ctx4 email secret))(FlashSuccessKey \<mapsto>
                  recoverInitiateSuccessFlash)\<rparr>))"
    using post l a1 e t
    by (simp add: startHandlerFunc_def Let_def c3 cong: sum.case_cong option.case_cong)
  from assms obtain ctx4 where s: "SaveUser rec ctx3 = Inr ctx4"
    and res: "p = RecoverOKPath rec" "fs = []" "fe = []" "fl"
    and c: "ctx' = (goRecoverEmail rec env ctx4 email secret)\<lparr>SessionStorer :=
               (SessionStorer (goRecoverEmail rec env ctx4 email secret))(FlashSuccessKey \<mapsto>
                  recoverInitiateSuccessFlash)\<rparr>"
    unfolding red by (auto split: sum.splits)
  from SaveUser_Inr [OF s] a3 obtain key where
    sk: "saved (PrimaryID rec) = Some (VString key)"
    and put: "Store_Put (PrimaryID rec) (Storer ctx3) key saved = Inr (Storer ctx4)"
    and c4: "ctx4 = ctx3\<lparr>Storer := Storer ctx4\<rparr>"
    by auto
  have st: "Storer ctx' = Storer ctx4"
    by (simp add: c goRecoverEmail_def sendRecoverEmail_keeps)
  have "Store_Put (PrimaryID rec) (Storer ctx) key saved = Inr (Storer ctx')"
    using put st by (simp add: ctx3_def)
  moreover have "SessionStorer ctx4 = SessionStorer ctx"
    by (subst c4) (simp add: ctx3_def)
  then have "SessionStorer ctx' = (SessionStorer ctx)(FlashSuccessKey \<mapsto> recoverInitiateSuccessFlash)"
    by (simp add: c goRecoverEmail_def sendRecoverEmail_keeps)
  ultimately show ?thesis
    using g t sk res that unfolding saved_def by blast
qed

lemma start_issue:
  assumes "LazyLoadTemplates env tplRecover = None" "Method r = methodPOST"
    and "Validate env r (PrimaryID rec) = []"
    and "Store_Get (PrimaryID rec) (Storer ctx) (FormValue r (PrimaryID rec)) = Inr user"
    and "StringErr user StoreEmail = Inr email"
    and "newToken env = Inr (secret, fp)"
    and "saved = user(StoreRecoverToken \<mapsto> VString fp,
           StoreRecoverTokenExpiry \<mapsto> VDateTime (time_Now env + RecoverTokenDuration rec))"
    and "saved (PrimaryID rec) = Some (VString key)"
    and "Store_Put (PrimaryID rec) (Storer ctx) key saved = Inr st"
  shows "fst (startHandlerFunc rec env ctx r) = Inr (Redirect (RecoverOKPath rec) [] [] True)"
    and "Storer (snd (startHandlerFunc rec env ctx r)) = st"
proof -
  have c3: "SetAttr (SetAttr (ctx\<lparr>User := Some user\<rparr>) StoreRecoverToken (VString fp))
              StoreRecoverTokenExpiry
              (VDateTime (time_Now env + RecoverTokenDuration rec)) = ctx\<lparr>User := Some saved\<rparr>"
    by (simp add: SetAttr_def Attrs_def assms(7))
  have s: "SaveUser rec (ctx\<lparr>User := Some saved\<rparr>) = Inr (ctx\<lparr>User := Some saved, Storer := st\<rparr>)"
    using assms(8,9) by (simp add: SaveUser_def Attrs_def StringErr_def)
  have "startHandlerFunc rec env ctx r =
      (Inr (Redirect (RecoverOKPath rec) [] [] True),
       (goRecoverEmail rec env (ctx\<lparr>User := Some saved, Storer := st\<rparr>) email secret)
         \<lparr>SessionStorer :=
            (SessionStorer (goRecoverEmail rec env (ctx\<lparr>User := Some saved, Storer := st\<rparr>)
               email secret))(FlashSuccessKey \<mapsto> recoverInitiateSuccessFlash)\<rparr>)"
    using assms(1-6) methods_distinct
    by (simp add: startHandlerFunc_def Let_def LoadUser_def Attrs_def c3 s
          cong: sum.case_cong option.case_cong)
  then show "fst (startHandlerFunc rec env ctx r) = Inr (Redirect (RecoverOKPath rec) [] [] True)"
    and "Storer (snd (startHandlerFunc rec env ctx r)) = st"
    by (simp_all add: goRecoverEmail_def sendRecoverEmail_keeps)
qed



section \<open>The scenario, evaluated\<close>

lemma md5_Sum_zeros:
  "md5_Sum (replicate 32 0) = [112, 188, 143, 75, 114, 168, 105, 33, 70, 139, 248, 232, 68, 29, 206, 81]"
  by code_simp

lemma secret0_encode: "EncodeToString encodeURL (replicate 32 0) = secret0"
  unfolding secret0_def by code_simp

lemma fingerprint0_encode:
  "EncodeToString encodeStd (md5_Sum (replicate 32 0)) = fingerprint0"
  unfolding md5_Sum_zeros fingerprint0_def by code_simp

lemma secret0_decode: "DecodeString encodeURL secret0 = Inr (replicate 32 0)"
  unfolding secret0_encode [symmetric] by (rule DecodeString_EncodeToString [OF encodeURL_props])

lemma newToken_zeros: "newToken (world now (Inr (replicate 32 0))) = Inr (secret0, fingerprint0)"
  by (simp add: newToken_def rand_Read_def world_def Let_def secret0_encode fingerprint0_encode)

lemma verify_issued:
  "verifyToken (world 4600 e) (context_of [issued alice fingerprint0 4600]) (post [(''token'', secret0)])
     = Inr (issued alice fingerprint0 4600)"
proof -
  have t: "FormValue (post [(''token'', secret0)]) formValueToken = secret0"
    by (simp add: FormValue_def post_def formValueToken_def)
  have ne: "secret0 \<noteq> []" by (simp add: secret0_def)
  have r: "RecoverUser (Storer (context_of [issued alice fingerprint0 4600])) fingerprint0
            = Inr (issued alice fingerprint0 4600)"
    by (simp add: RecoverUser_def context_of_def issued_def StoreRecoverToken_def)
  have d: "DateTime (issued alice fingerprint0 4600) StoreRecoverTokenExpiry = Some 4600"
    by (simp add: DateTime_def issued_def StoreRecoverTokenExpiry_def)
  show ?thesis
    by (simp add: verifyToken_def Let_def t ne secret0_decode fingerprint0_encode r d After_def world_def)
qed

lemma scenario_token: "FormValue (post [(''token'', s)]) formValueToken = s"
  by (simp add: FormValue_def post_def formValueToken_def)

lemma scenario_lookup:
  "RecoverUser (Storer (context_of [issued alice fingerprint0 4600])) fingerprint0
     = Inr (issued alice fingerprint0 4600)"
  by (simp add: RecoverUser_def context_of_def issued_def StoreRecoverToken_def)





lemma world_simps:
  "LazyLoadTemplates (world now e) tpl = None"
  "FireAfter (world now e) ctx = None"
  "time_Now (world now e) = now"
  "rand_Reader (world now e) = e"
  "bcrypt_GenerateFromPassword (world now e) password cost = Inr (''$2a$'' @ password)"
  "Validate (world now e) r field
     = (if length (FormValue r field) < 8
        then [(field, [''Must be at least 8 characters''])] else [])"
  by (simp_all add: world_def)

lemma r_initiate_simps:
  "Method r_initiate = methodPOST"
  "FormValue r_initiate (PrimaryID config) = ''alice@example.com''"
  "FormValue r_initiate ''username'' = ''alice@example.com''"
  by (simp_all add: r_initiate_def post_def methodPOST_def FormValue_def config_def)


lemma first_issue:
  "fst (startHandlerFunc config (world 1000 (Inr (replicate 32 0))) (context_of [alice]) r_initiate)
     = Inr (Redirect ''/login'' [] [] True)"
  "Storer (snd (startHandlerFunc config (world 1000 (Inr (replicate 32 0))) (context_of [alice])
             r_initiate))
     = store_of [issued alice fingerprint0 4600]
         [(''alice@example.com'', issued alice fingerprint0 4600)]"
proof -
  let ?env = "world 1000 (Inr (replicate 32 0))"
  have v: "Validate ?env r_initiate (PrimaryID config) = []"
    by (simp add: world_simps r_initiate_simps)
  have g: "Store_Get (PrimaryID config) (Storer (context_of [alice]))
             (FormValue r_initiate (PrimaryID config)) = Inr alice"
    by (simp add: r_initiate_simps Store_Get_def context_of_def alice_def config_def)
  have e: "StringErr alice StoreEmail = Inr ''alice@example.com''"
    by (simp add: StringErr_def alice_def StoreEmail_def)
  have s: "issued alice fingerprint0 4600
             = alice(StoreRecoverToken \<mapsto> VString fingerprint0,
                 StoreRecoverTokenExpiry \<mapsto>
                   VDateTime (time_Now ?env + RecoverTokenDuration config))"
    by (simp add: issued_def StoreRecoverToken_def StoreRecoverTokenExpiry_def world_simps
          config_def)
  have k: "issued alice fingerprint0 4600 (PrimaryID config) = Some (VString ''alice@example.com'')"
    by (simp add: issued_def alice_def config_def)
  have p: "Store_Put (PrimaryID config) (Storer (context_of [alice])) ''alice@example.com''
             (issued alice fingerprint0 4600)
           = Inr (store_of [issued alice fingerprint0 4600]
                    [(''alice@example.com'', issued alice fingerprint0 4600)])"
    by (simp add: Store_Put_def context_of_def store_of_def alice_def config_def)
  note r = start_issue [OF world_simps(1) r_initiate_simps(1) v g e newToken_zeros s k p]
  show "fst (startHandlerFunc config ?env (context_of [alice]) r_initiate)
     = Inr (Redirect ''/login'' [] [] True)"
    using r(1) by (simp add: config_def)
  show "Storer (snd (startHandlerFunc config ?env (context_of [alice]) r_initiate))
     = store_of [issued alice fingerprint0 4600]
         [(''alice@example.com'', issued alice fingerprint0 4600)]"
    by (rule r(2))
qed



lemma config_paths: "RecoverOKPath config = ''/login''"
  by (simp add: config_def)










section \<open>Claims about token verification\<close>

text \<open>
  C1 (as amended). \<open>verifyToken\<close> compares with \<open>time.Now().After(expiry)\<close>, which is
  strict: for a user found by fingerprint whose \<open>recover_token_expiry\<close> is the timestamp
  \<open>recoveryExpiry\<close>, verification succeeds when \<open>now \<le> recoveryExpiry\<close> and fails with
  \<open>errRecoveryTokenExpired\<close> when \<open>recoveryExpiry < now\<close>. At \<open>now = recoveryExpiry\<close>
  the token is still valid.
\<close>

theorem verifyToken_expiry_boundary:
  assumes "FormValue r formValueToken \<noteq> []"
    and "DecodeString encodeURL (FormValue r formValueToken) = Inr decoded"
    and "RecoverUser (Storer ctx) (EncodeToString encodeStd (md5_Sum decoded)) = Inr attrs"
    and "attrs StoreRecoverTokenExpiry = Some (VDateTime recoveryExpiry)"
  shows "(time_Now env \<le> recoveryExpiry \<longrightarrow> verifyToken env ctx r = Inr attrs)
       \<and> (recoveryExpiry < time_Now env \<longrightarrow> verifyToken env ctx r = Inl errRecoveryTokenExpired)"
proof -
  from assms(4) have "DateTime attrs StoreRecoverTokenExpiry = Some recoveryExpiry"
    by (simp add: DateTime_def)
  with assms(1-3) show ?thesis by (simp add: verifyToken_decoded)
qed

theorem verifyToken_expiry_boundary_witness:
  "verifyToken (world 4600 (Inr [])) (context_of [issued alice fingerprint0 4600])
       (post [(''token'', secret0)]) = Inr (issued alice fingerprint0 4600)
   \<and> verifyToken (world 4601 (Inr [])) (context_of [issued alice fingerprint0 4600])
       (post [(''token'', secret0)]) = Inl errRecoveryTokenExpired"
proof -
  let ?r = "post [(''token'', secret0)]"
  let ?ctx = "context_of [issued alice fingerprint0 4600]"
  have 1: "FormValue ?r formValueToken \<noteq> []"
    by (simp add: scenario_token secret0_def)
  have 2: "DecodeString encodeURL (FormValue ?r formValueToken) = Inr (replicate 32 0)"
    by (simp add: scenario_token secret0_decode)
  have 3: "RecoverUser (Storer ?ctx) (EncodeToString encodeStd (md5_Sum (replicate 32 0)))
             = Inr (issued alice fingerprint0 4600)"
    by (simp add: fingerprint0_encode scenario_lookup)
  have 4: "issued alice fingerprint0 4600 StoreRecoverTokenExpiry = Some (VDateTime 4600)"
    by (simp add: issued_def StoreRecoverTokenExpiry_def)
  show ?thesis
    using verifyToken_expiry_boundary [OF 1 2 3 4, of "world 4600 (Inr [])"]
          verifyToken_expiry_boundary [OF 1 2 3 4, of "world 4601 (Inr [])"]
    by (simp add: world_def)
qed

text \<open>
  The claim as stated fails at the boundary: with the clock at 4600 and the stored expiry
  at 4600, verification of the outstanding token succeeds.
\<close>

theorem verifyToken_expiry_boundary_counterexample:
  "time_Now (world 4600 (Inr [])) = 4600
   \<and> DateTime (issued alice fingerprint0 4600) StoreRecoverTokenExpiry = Some 4600
   \<and> verifyToken (world 4600 (Inr [])) (context_of [issued alice fingerprint0 4600])
        (post [(''token'', secret0)]) = Inr (issued alice fingerprint0 4600)
   \<and> verifyToken (world 4600 (Inr [])) (context_of [issued alice fingerprint0 4600])
        (post [(''token'', secret0)]) \<noteq> Inl errRecoveryTokenExpired"
proof -
  have v: "verifyToken (world 4600 (Inr [])) (context_of [issued alice fingerprint0 4600])
             (post [(''token'', secret0)]) = Inr (issued alice fingerprint0 4600)"
    by (rule verify_issued)
  have t: "time_Now (world 4600 (Inr [])) = 4600"
    by (simp add: world_def)
  have d: "DateTime (issued alice fingerprint0 4600) StoreRecoverTokenExpiry = Some 4600"
    by (simp add: DateTime_def issued_def StoreRecoverTokenExpiry_def)
  from v t d show ?thesis by simp
qed

text \<open>
  C9. When a user is found by fingerprint but its \<open>recover_token_expiry\<close> attribute is
  absent or is not a timestamp (\<open>attrs.DateTime\<close> reports \<open>ok = false\<close>),
  \<open>verifyToken\<close> fails with \<open>errRecoveryTokenExpired\<close>, the error of an expired token,
  and not with \<open>ErrUserNotFound\<close>.
\<close>

theorem verifyToken_unreadable_expiry:
  assumes "FormValue r formValueToken \<noteq> []"
    and "DecodeString encodeURL (FormValue r formValueToken) = Inr decoded"
    and "RecoverUser (Storer ctx) (EncodeToString encodeStd (md5_Sum decoded)) = Inr attrs"
    and "attrs StoreRecoverTokenExpiry = None
         \<or> (\<exists>s. attrs StoreRecoverTokenExpiry = Some (VString s))
         \<or> (\<exists>i. attrs StoreRecoverTokenExpiry = Some (VInteger i))
         \<or> (\<exists>b. attrs StoreRecoverTokenExpiry = Some (VBool b))"
  shows "verifyToken env ctx r = Inl errRecoveryTokenExpired"
proof -
  from assms(4) have "DateTime attrs StoreRecoverTokenExpiry = None"
    by (auto simp: DateTime_def)
  with assms(1-3) show ?thesis by (simp add: verifyToken_decoded)
qed

theorem verifyToken_unreadable_expiry_witness:
  "RecoverUser (Storer (context_of [alice(''recover_token'' \<mapsto> VString fingerprint0)])) fingerprint0
     = Inr (alice(''recover_token'' \<mapsto> VString fingerprint0))
   \<and> (alice(''recover_token'' \<mapsto> VString fingerprint0)) StoreRecoverTokenExpiry = None
   \<and> verifyToken (world 0 (Inr [])) (context_of [alice(''recover_token'' \<mapsto> VString fingerprint0)])
        (post [(''token'', secret0)]) = Inl errRecoveryTokenExpired"
proof -
  let ?r = "post [(''token'', secret0)]"
  let ?u = "alice(''recover_token'' \<mapsto> VString fingerprint0)"
  have 1: "FormValue ?r formValueToken \<noteq> []"
    by (simp add: scenario_token secret0_def)
  have 2: "DecodeString encodeURL (FormValue ?r formValueToken) = Inr (replicate 32 0)"
    by (simp add: scenario_token secret0_decode)
  have 3: "RecoverUser (Storer (context_of [?u])) (EncodeToString encodeStd (md5_Sum (replicate 32 0)))
             = Inr ?u"
    by (simp add: fingerprint0_encode RecoverUser_def context_of_def StoreRecoverToken_def)
  have 4: "?u StoreRecoverTokenExpiry = None"
    by (simp add: alice_def StoreRecoverTokenExpiry_def)
  from 4 have 5: "?u StoreRecoverTokenExpiry = None
         \<or> (\<exists>s. ?u StoreRecoverTokenExpiry = Some (VString s))
         \<or> (\<exists>i. ?u StoreRecoverTokenExpiry = Some (VInteger i))
         \<or> (\<exists>b. ?u StoreRecoverTokenExpiry = Some (VBool b))"
    by (rule disjI1)
  show ?thesis
    using verifyToken_unreadable_expiry [OF 1 2 3 5, of "world 0 (Inr [])"] 3 4
    by (simp add: fingerprint0_encode)
qed

text \<open>
  C7. The failures of \<open>verifyToken\<close>: an empty token fails with \<open>ClientDataErr\<close> and a
  token that does not decode fails with the decoder's \<open>CorruptInputError\<close> (the spec's
  MalformedToken); a token that decodes fails with \<open>ErrUserNotFound\<close> (the spec's
  TokenInvalid) when no user record of a working store holds the recomputed fingerprint;
  and the expiry check, whose results are \<open>errRecoveryTokenExpired\<close> and success, is
  reached only when some user record holds the recomputed fingerprint.
\<close>

theorem verifyToken_failures:
  "(FormValue r formValueToken = [] \<longrightarrow> verifyToken env ctx r = Inl (ClientDataErr []))
 \<and> (FormValue r formValueToken \<noteq> [] \<and> DecodeString encodeURL (FormValue r formValueToken) = Inl err
      \<longrightarrow> verifyToken env ctx r = Inl err \<and> err = CorruptInputError)
 \<and> (FormValue r formValueToken \<noteq> []
      \<and> DecodeString encodeURL (FormValue r formValueToken) = Inr decoded
      \<and> Fault (Storer ctx) = None
      \<and> (\<forall>u \<in> set (Users (Storer ctx)).
             u StoreRecoverToken \<noteq> Some (VString (EncodeToString encodeStd (md5_Sum decoded))))
      \<longrightarrow> verifyToken env ctx r = Inl ErrUserNotFound)
 \<and> (verifyToken env ctx r = Inl errRecoveryTokenExpired \<or> verifyToken env ctx r = Inr attrs
      \<longrightarrow> (\<exists>decoded' u. DecodeString encodeURL (FormValue r formValueToken) = Inr decoded'
            \<and> u \<in> set (Users (Storer ctx))
            \<and> u StoreRecoverToken = Some (VString (EncodeToString encodeStd (md5_Sum decoded')))))"
proof (intro conjI impI)
  assume "FormValue r formValueToken = []"
  then show "verifyToken env ctx r = Inl (ClientDataErr [])"
    by (simp add: verifyToken_def)
next
  assume a: "FormValue r formValueToken \<noteq> [] \<and> DecodeString encodeURL (FormValue r formValueToken) = Inl err"
  then show "verifyToken env ctx r = Inl err" by (simp add: verifyToken_def)
  from a show "err = CorruptInputError" by (auto dest: DecodeString_error)
next
  assume a: "FormValue r formValueToken \<noteq> []
      \<and> DecodeString encodeURL (FormValue r formValueToken) = Inr decoded
      \<and> Fault (Storer ctx) = None
      \<and> (\<forall>u \<in> set (Users (Storer ctx)).
             u StoreRecoverToken \<noteq> Some (VString (EncodeToString encodeStd (md5_Sum decoded))))"
  then have "RecoverUser (Storer ctx) (EncodeToString encodeStd (md5_Sum decoded)) = Inl ErrUserNotFound"
    by (simp add: RecoverUser_NotFound)
  with a show "verifyToken env ctx r = Inl ErrUserNotFound"
    by (simp add: verifyToken_decoded)
next
  assume v: "verifyToken env ctx r = Inl errRecoveryTokenExpired \<or> verifyToken env ctx r = Inr attrs"
  have ne: "FormValue r formValueToken \<noteq> []"
    using v by (auto simp: verifyToken_def)
  obtain decoded' where d: "DecodeString encodeURL (FormValue r formValueToken) = Inr decoded'"
    using v ne DecodeString_error [of encodeURL "FormValue r formValueToken"]
    by (cases "DecodeString encodeURL (FormValue r formValueToken)") (auto simp: verifyToken_def)
  obtain u where u: "RecoverUser (Storer ctx) (EncodeToString encodeStd (md5_Sum decoded')) = Inr u"
    using v RecoverUser_error [of "Storer ctx" "EncodeToString encodeStd (md5_Sum decoded')"]
    by (cases "RecoverUser (Storer ctx) (EncodeToString encodeStd (md5_Sum decoded'))")
       (auto simp: verifyToken_decoded [OF ne d])
  from RecoverUser_Inr [OF u] d
  show "\<exists>decoded' u. DecodeString encodeURL (FormValue r formValueToken) = Inr decoded'
            \<and> u \<in> set (Users (Storer ctx))
            \<and> u StoreRecoverToken = Some (VString (EncodeToString encodeStd (md5_Sum decoded')))"
    by blast
qed

theorem verifyToken_failures_witness:
  "verifyToken (world 0 (Inr [])) (context_of [alice]) (post []) = Inl (ClientDataErr [])
   \<and> verifyToken (world 0 (Inr [])) (context_of [alice]) (post [(''token'', ''!!!!'')])
        = Inl CorruptInputError
   \<and> verifyToken (world 0 (Inr [])) (context_of [alice]) (post [(''token'', secret0)])
        = Inl ErrUserNotFound
   \<and> (\<exists>decoded u. DecodeString encodeURL secret0 = Inr decoded
         \<and> u \<in> set [issued alice fingerprint0 4600]
         \<and> u StoreRecoverToken = Some (VString (EncodeToString encodeStd (md5_Sum decoded))))"
proof -
  let ?env = "world 0 (Inr [])"
  have e: "FormValue (post []) formValueToken = []"
    by (simp add: FormValue_def post_def)
  have b: "FormValue (post [(''token'', ''!!!!'')]) formValueToken \<noteq> []
           \<and> DecodeString encodeURL (FormValue (post [(''token'', ''!!!!'')]) formValueToken)
               = Inl CorruptInputError"
    by (simp add: FormValue_def post_def formValueToken_def DecodeString_def encodeURL_def)
  have n: "FormValue (post [(''token'', secret0)]) formValueToken \<noteq> []
      \<and> DecodeString encodeURL (FormValue (post [(''token'', secret0)]) formValueToken)
           = Inr (replicate 32 0)
      \<and> Fault (Storer (context_of [alice])) = None
      \<and> (\<forall>u \<in> set (Users (Storer (context_of [alice]))).
             u StoreRecoverToken
               \<noteq> Some (VString (EncodeToString encodeStd (md5_Sum (replicate 32 0)))))"
    by (simp add: scenario_token secret0_decode context_of_def alice_def StoreRecoverToken_def)
       (simp add: secret0_def)
  have v: "verifyToken (world 4600 (Inr [])) (context_of [issued alice fingerprint0 4600])
             (post [(''token'', secret0)]) = Inl errRecoveryTokenExpired
         \<or> verifyToken (world 4600 (Inr [])) (context_of [issued alice fingerprint0 4600])
             (post [(''token'', secret0)]) = Inr (issued alice fingerprint0 4600)"
    by (simp add: verify_issued)
  show ?thesis
    using verifyToken_failures [of "post []" ?env "context_of [alice]", THEN conjunct1, rule_format, OF e]
      verifyToken_failures [of "post [(''token'', ''!!!!'')]" ?env "context_of [alice]" CorruptInputError,
        THEN conjunct2, THEN conjunct1, rule_format, OF b]
      verifyToken_failures [of "post [(''token'', secret0)]" ?env "context_of [alice]" _ "replicate 32 0",
        THEN conjunct2, THEN conjunct2, THEN conjunct1, rule_format, OF n]
      verifyToken_failures [of "post [(''token'', secret0)]" "world 4600 (Inr [])"
        "context_of [issued alice fingerprint0 4600]" _ _ "issued alice fingerprint0 4600",
        THEN conjunct2, THEN conjunct2, THEN conjunct2, rule_format, OF v]
    by (simp add: scenario_token context_of_def)
qed

section \<open>Claims about token generation\<close>

text \<open>
  C3. Round trip: for every pair \<open>(secret, fingerprint)\<close> that \<open>newToken\<close> returns,
  decoding the secret from its URL encoding succeeds, and the digest of the decoded bytes
  in the standard encoding is the fingerprint; so for a request carrying the secret,
  \<open>verifyToken\<close> looks the user up under exactly the persisted fingerprint.
\<close>

theorem newToken_round_trip:
  assumes "newToken env = Inr (secret, fingerprint)"
  shows "(\<exists>decoded. DecodeString encodeURL secret = Inr decoded
            \<and> EncodeToString encodeStd (md5_Sum decoded) = fingerprint)
       \<and> (\<forall>env' ctx r. FormValue r formValueToken = secret \<longrightarrow>
            verifyToken env' ctx r =
              (case RecoverUser (Storer ctx) fingerprint of
                 Inl err \<Rightarrow> Inl err
               | Inr attrs \<Rightarrow>
                   (case DateTime attrs StoreRecoverTokenExpiry of
                      None \<Rightarrow> Inl errRecoveryTokenExpired
                    | Some expiry \<Rightarrow>
                        if After (time_Now env') expiry then Inl errRecoveryTokenExpired
                        else Inr attrs)))"
proof -
  from assms obtain token where t: "length token = 32"
    and s: "secret = EncodeToString encodeURL token"
    and f: "fingerprint = EncodeToString encodeStd (md5_Sum token)"
    by (rule newToken_Inr)
  have d: "DecodeString encodeURL secret = Inr token"
    unfolding s by (rule DecodeString_EncodeToString [OF encodeURL_props])
  have ne: "secret \<noteq> []"
    using t by (auto simp: s EncodeToString_Nil_iff)
  show ?thesis
  proof (intro conjI allI impI)
    show "\<exists>decoded. DecodeString encodeURL secret = Inr decoded
            \<and> EncodeToString encodeStd (md5_Sum decoded) = fingerprint"
      using d f by simp
  next
    fix env' ctx r
    assume "FormValue r formValueToken = secret"
    with ne d show "verifyToken env' ctx r =
              (case RecoverUser (Storer ctx) fingerprint of
                 Inl err \<Rightarrow> Inl err
               | Inr attrs \<Rightarrow>
                   (case DateTime attrs StoreRecoverTokenExpiry of
                      None \<Rightarrow> Inl errRecoveryTokenExpired
                    | Some expiry \<Rightarrow>
                        if After (time_Now env') expiry then Inl errRecoveryTokenExpired
                        else Inr attrs))"
      by (simp add: verifyToken_def Let_def f)
  qed
qed

theorem newToken_round_trip_witness:
  "newToken (world 1000 (Inr (replicate 32 0))) = Inr (secret0, fingerprint0)
   \<and> (\<exists>decoded. DecodeString encodeURL secret0 = Inr decoded
          \<and> EncodeToString encodeStd (md5_Sum decoded) = fingerprint0)
   \<and> verifyToken (world 4600 (Inr [])) (context_of [issued alice fingerprint0 4600])
        (post [(''token'', secret0)]) = Inr (issued alice fingerprint0 4600)"
proof -
  have t: "newToken (world 1000 (Inr (replicate 32 0))) = Inr (secret0, fingerprint0)"
    by (rule newToken_zeros)
  have d: "DateTime (issued alice fingerprint0 4600) StoreRecoverTokenExpiry = Some 4600"
    by (simp add: DateTime_def issued_def StoreRecoverTokenExpiry_def)
  have a: "\<not> After (time_Now (world 4600 (Inr []))) 4600"
    by (simp add: After_def world_def)
  from newToken_round_trip [OF t]
  have 1: "\<exists>decoded. DecodeString encodeURL secret0 = Inr decoded
          \<and> EncodeToString encodeStd (md5_Sum decoded) = fingerprint0"
    and 2: "FormValue r formValueToken = secret0 \<Longrightarrow>
            verifyToken env' ctx r =
              (case RecoverUser (Storer ctx) fingerprint0 of
                 Inl err \<Rightarrow> Inl err
               | Inr attrs \<Rightarrow>
                   (case DateTime attrs StoreRecoverTokenExpiry of
                      None \<Rightarrow> Inl errRecoveryTokenExpired
                    | Some expiry \<Rightarrow>
                        if After (time_Now env') expiry then Inl errRecoveryTokenExpired
                        else Inr attrs))" for env' ctx r
    by blast+
  have 3: "verifyToken (world 4600 (Inr [])) (context_of [issued alice fingerprint0 4600])
        (post [(''token'', secret0)]) = Inr (issued alice fingerprint0 4600)"
    by (simp add: 2 [OF scenario_token] scenario_lookup d a)
  from t 1 3 show ?thesis by simp
qed



section \<open>Claims about completion\<close>




text \<open>
  C5 (as amended). \<open>completeHandlerFunc\<close> checks the password policy before it verifies
  the token. For a POST with a non-empty token: when the policy reports errors the form is
  rendered again with them, whatever the token and the store are, and \<open>verifyToken\<close>
  has no part in the outcome; only when the policy accepts the password is the token
  verified, and a failure of \<open>verifyToken\<close> is then returned unchanged, before any hashing.
\<close>

theorem complete_validates_before_verifying:
  assumes "LazyLoadTemplates env tplRecoverComplete = None" "Method req = methodPOST"
    "FormValue req formValueToken \<noteq> []"
  shows "(Validate env req StorePassword \<noteq> [] \<longrightarrow>
            completeHandlerFunc rec env ctx req
              = (Inr (Render tplRecoverComplete
                        [(formValueToken, DString (FormValue req formValueToken)),
                         (''errs'', DErrs (Validate env req StorePassword))]), ctx))
       \<and> (Validate env req StorePassword = [] \<and> verifyToken env ctx req = Inl err \<longrightarrow>
            completeHandlerFunc rec env ctx req = (Inl err, ctx\<lparr>User := None\<rparr>))"
  using assms methods_distinct by (simp add: completeHandlerFunc_def Let_def)

theorem complete_validates_before_verifying_witness:
  "completeHandlerFunc config (world 2000 (Inr [])) (context_of [alice]) r_invalid
     = (Inr (Render tplRecoverComplete
               [(formValueToken, DString ''!!!!''),
                (''errs'', DErrs [(StorePassword, [''Must be at least 8 characters''])])]),
        context_of [alice])
   \<and> completeHandlerFunc config (world 2000 (Inr [])) (context_of [alice]) r_malformed
     = (Inl CorruptInputError, (context_of [alice])\<lparr>User := None\<rparr>)"
proof -
  let ?env = "world 2000 (Inr [])"
  have i: "Method r_invalid = methodPOST" "FormValue r_invalid formValueToken = ''!!!!''"
    "FormValue r_invalid StorePassword = ''short''"
    by (simp_all add: r_invalid_def post_def methodPOST_def FormValue_def formValueToken_def
          StorePassword_def)
  have m: "Method r_malformed = methodPOST" "FormValue r_malformed formValueToken = ''!!!!''"
    "FormValue r_malformed StorePassword = ''NewPass1!''"
    by (simp_all add: r_malformed_def post_def methodPOST_def FormValue_def formValueToken_def
          StorePassword_def)
  have ine: "FormValue r_invalid formValueToken \<noteq> []" by (simp add: i)
  have mne: "FormValue r_malformed formValueToken \<noteq> []" by (simp add: m)
  have iv: "Validate ?env r_invalid StorePassword
              = [(StorePassword, [''Must be at least 8 characters''])]"
    by (simp add: world_simps i)
  have mv: "Validate ?env r_malformed StorePassword = []"
    by (simp add: world_simps m)
  have v: "verifyToken ?env (context_of [alice]) r_malformed = Inl CorruptInputError"
    by (simp add: verifyToken_def m DecodeString_def encodeURL_def)
  from complete_validates_before_verifying [OF world_simps(1) i(1) ine,
         where rec = config and ctx = "context_of [alice]" and err = CorruptInputError]
       complete_validates_before_verifying [OF world_simps(1) m(1) mne,
         where rec = config and ctx = "context_of [alice]" and err = CorruptInputError]
  show ?thesis by (simp add: iv mv v i m)
qed

text \<open>
  The claim as stated fails when both the token and the password are invalid: the token
  \<open>!!!!\<close> does not decode, so \<open>verifyToken\<close> fails with \<open>CorruptInputError\<close>, yet the
  handler answers with the form and the policy error, not with the failure of
  \<open>verifyToken\<close>.
\<close>

theorem complete_validates_before_verifying_counterexample:
  "verifyToken (world 2000 (Inr [])) (context_of [alice]) r_invalid = Inl CorruptInputError
   \<and> Validate (world 2000 (Inr [])) r_invalid StorePassword \<noteq> []
   \<and> fst (completeHandlerFunc config (world 2000 (Inr [])) (context_of [alice]) r_invalid)
       = Inr (Render tplRecoverComplete
                [(formValueToken, DString ''!!!!''),
                 (''errs'', DErrs [(StorePassword, [''Must be at least 8 characters''])])])
   \<and> fst (completeHandlerFunc config (world 2000 (Inr [])) (context_of [alice]) r_invalid)
       \<noteq> Inl CorruptInputError"
proof -
  have i: "Method r_invalid = methodPOST" "FormValue r_invalid formValueToken = ''!!!!''"
    "FormValue r_invalid StorePassword = ''short''"
    by (simp_all add: r_invalid_def post_def methodPOST_def FormValue_def formValueToken_def
          StorePassword_def)
  have v: "verifyToken (world 2000 (Inr [])) (context_of [alice]) r_invalid = Inl CorruptInputError"
    by (simp add: verifyToken_def i DecodeString_def encodeURL_def)
  have iv: "Validate (world 2000 (Inr [])) r_invalid StorePassword
              = [(StorePassword, [''Must be at least 8 characters''])]"
    by (simp add: world_simps i)
  have c: "fst (completeHandlerFunc config (world 2000 (Inr [])) (context_of [alice]) r_invalid)
       = Inr (Render tplRecoverComplete
                [(formValueToken, DString ''!!!!''),
                 (''errs'', DErrs [(StorePassword, [''Must be at least 8 characters''])])])"
    using methods_distinct
    by (simp add: completeHandlerFunc_def Let_def world_simps(1) i iv)
  from v iv c show ?thesis by simp
qed



section \<open>Claims about issuance\<close>

text \<open>
  C4. Anti-enumeration. When the identifier is not in the store, \<open>startHandlerFunc\<close>
  returns an \<open>ErrAndRedirect\<close> to \<open>RecoverOKPath\<close> with the success flash message and
  leaves the whole context as it was: no write reaches the store, no mail is handed over
  and the random source is not consulted (the outcome is the same for every source, a
  failing one included). A request that ends in the redirect of an issuance is for an
  identifier in the store, and it names the same redirect target and the same success
  message.
\<close>

theorem initiate_anti_enumeration:
  assumes "LazyLoadTemplates env tplRecover = None" "Method r = methodPOST"
    and "Validate env r (PrimaryID rec) = []"
    and missing: "Store_Get (PrimaryID rec) (Storer ctx) (FormValue r (PrimaryID rec))
                    = Inl ErrUserNotFound"
    and issued: "startHandlerFunc rec env' ctx' r' = (Inr (Redirect p fs fe fl), ctx'')"
  shows "startHandlerFunc rec env ctx r
           = (Inl (ErrAndRedirect ErrUserNotFound (RecoverOKPath rec)
                     recoverInitiateSuccessFlash []), ctx)
       \<and> (\<exists>user. Store_Get (PrimaryID rec) (Storer ctx') (FormValue r' (PrimaryID rec)) = Inr user)
       \<and> redirect_target (fst (startHandlerFunc rec env ctx r))
           = redirect_target (fst (startHandlerFunc rec env' ctx' r'))
       \<and> flash_success (startHandlerFunc rec env ctx r)
           = flash_success (startHandlerFunc rec env' ctx' r')
       \<and> redirect_target (fst (startHandlerFunc rec env ctx r)) = Some (RecoverOKPath rec)
       \<and> flash_success (startHandlerFunc rec env ctx r) = Some recoverInitiateSuccessFlash"
proof -
  have nf: "startHandlerFunc rec env ctx r
           = (Inl (ErrAndRedirect ErrUserNotFound (RecoverOKPath rec)
                     recoverInitiateSuccessFlash []), ctx)"
    using assms(1-4) methods_distinct
    by (simp add: startHandlerFunc_def Let_def LoadUser_def)
  from issued obtain user where
    g: "Store_Get (PrimaryID rec) (Storer ctx') (FormValue r' (PrimaryID rec)) = Inr user"
    and s: "SessionStorer ctx'' = (SessionStorer ctx')(FlashSuccessKey \<mapsto> recoverInitiateSuccessFlash)"
    and p: "p = RecoverOKPath rec"
    by (rule start_redirect)
  have "redirect_target (fst (startHandlerFunc rec env' ctx' r')) = Some (RecoverOKPath rec)"
    by (simp add: issued redirect_target_def p)
  moreover have "flash_success (startHandlerFunc rec env' ctx' r') = Some recoverInitiateSuccessFlash"
    by (simp add: issued flash_success_def s)
  moreover have "redirect_target (fst (startHandlerFunc rec env ctx r)) = Some (RecoverOKPath rec)"
    by (simp add: nf redirect_target_def)
  moreover have "flash_success (startHandlerFunc rec env ctx r) = Some recoverInitiateSuccessFlash"
    by (simp add: nf flash_success_def)
  ultimately show ?thesis using nf g by simp
qed

theorem initiate_anti_enumeration_witness:
  "startHandlerFunc config (world 1000 (Inl (ExternalErr ''EOF''))) (context_of [alice]) r_unknown
     = (Inl (ErrAndRedirect ErrUserNotFound ''/login'' recoverInitiateSuccessFlash []),
        context_of [alice])
   \<and> fst (startHandlerFunc config (world 1000 (Inr (replicate 32 0))) (context_of [alice]) r_initiate)
     = Inr (Redirect ''/login'' [] [] True)
   \<and> redirect_target
        (fst (startHandlerFunc config (world 1000 (Inl (ExternalErr ''EOF''))) (context_of [alice])
                r_unknown))
     = redirect_target
        (fst (startHandlerFunc config (world 1000 (Inr (replicate 32 0))) (context_of [alice])
                r_initiate))
   \<and> flash_success
        (startHandlerFunc config (world 1000 (Inl (ExternalErr ''EOF''))) (context_of [alice])
           r_unknown)
     = flash_success
        (startHandlerFunc config (world 1000 (Inr (replicate 32 0))) (context_of [alice])
           r_initiate)"
proof -
  let ?env = "world 1000 (Inl (ExternalErr ''EOF''))"
  have u: "Method r_unknown = methodPOST"
    "FormValue r_unknown (PrimaryID config) = ''bob@example.com''"
    "FormValue r_unknown ''username'' = ''bob@example.com''"
    by (simp_all add: r_unknown_def post_def methodPOST_def FormValue_def config_def)
  have v: "Validate ?env r_unknown (PrimaryID config) = []"
    by (simp add: world_simps u)
  have g: "Store_Get (PrimaryID config) (Storer (context_of [alice]))
             (FormValue r_unknown (PrimaryID config)) = Inl ErrUserNotFound"
    by (simp add: u Store_Get_def context_of_def alice_def config_def)
  have i: "startHandlerFunc config (world 1000 (Inr (replicate 32 0))) (context_of [alice]) r_initiate
             = (Inr (Redirect ''/login'' [] [] True), issued_once)"
    by (simp add: prod_eq_iff first_issue(1) issued_once_def)
  note th = initiate_anti_enumeration [OF world_simps(1) u(1) v g i]
  note a = th [THEN conjunct1, unfolded config_paths]
  note b = th [THEN conjunct2, THEN conjunct2, THEN conjunct1]
  note c = th [THEN conjunct2, THEN conjunct2, THEN conjunct2, THEN conjunct1]
  show ?thesis
    by (intro conjI) (rule a, rule first_issue(1), rule b, rule c)
qed




end
